theory Spec2Isabelle
  imports Main
begin

section \<open>Documents and the JavaScript \<open>Map\<close>\<close>

text \<open>
  Every list view holds documents that carry an identity key \<open>_id\<close> of type string
  (\<open>ApiVideo\<close>, \<open>SuggestedVideo\<close>, \<open>PostDoc\<close>, \<open>CommentItem\<close>). The remaining fields
  play no part in the pager logic and are kept as one polymorphic payload.
\<close>

record 'd doc =
  doc_id :: string
  doc_data :: 'd

text \<open>
  A JavaScript \<open>Map\<close> iterates in insertion order, and \<open>map.set(k, v)\<close> on a key that
  is already present overwrites the value and leaves the key where it is. The model is
  an association list in insertion order.
\<close>

type_synonym ('k, 'v) js_map = "('k \<times> 'v) list"

fun map_set :: "('k, 'v) js_map \<Rightarrow> 'k \<Rightarrow> 'v \<Rightarrow> ('k, 'v) js_map" where
  "map_set [] k v = [(k, v)]"
| "map_set ((k', v') # m) k v =
     (if k' = k then (k', v) # m else (k', v') # map_set m k v)"

definition map_values :: "('k, 'v) js_map \<Rightarrow> 'v list" where
  "map_values m = map snd m"

text \<open>The loop \<^verbatim>\<open>for (const v of xs) map.set(v._id, v)\<close>.\<close>

fun set_all :: "(string, ('d, 'z) doc_scheme) js_map \<Rightarrow> ('d, 'z) doc_scheme list
    \<Rightarrow> (string, ('d, 'z) doc_scheme) js_map" where
  "set_all m [] = m"
| "set_all m (v # vs) = set_all (map_set m (doc_id v) v) vs"

text \<open>
  The body of the state updater used by Home, SuggestedVideos and Threads in append mode:
  \<^verbatim>\<open>
  const map = new Map();
  for (const v of prev) map.set(v._id, v);
  for (const v of docs) map.set(v._id, v);
  return Array.from(map.values());
  \<close>
\<close>

definition mergeById :: "('d, 'z) doc_scheme list \<Rightarrow> ('d, 'z) doc_scheme list
    \<Rightarrow> ('d, 'z) doc_scheme list" where
  "mergeById prev docs = map_values (set_all (set_all [] prev) docs)"


section \<open>Remote calls\<close>

text \<open>
  Every handler is an \<open>async\<close> function with one \<open>await\<close> on a remote call. The model
  splits it there: the part that runs synchronously up to the \<open>await\<close> (it returns the
  request it issues, if any), and the part that runs when the promise settles, given
  the outcome. A rejected promise carries the error that the \<open>catch\<close> block receives;
  a \<open>TypeError\<close> raised inside the \<open>try\<close> block reaches the same \<open>catch\<close>.
\<close>

datatype js_error = TypeError | RequestFailed string

datatype 'r outcome = Resolved 'r | Rejected js_error

record page_request =
  req_page :: int
  req_limit :: int

text \<open>
  The value found at \<open>data?.docs\<close>: nothing (\<open>undefined\<close> or \<open>null\<close>), a value that is
  not an array, or an array of documents.
\<close>

datatype 'a raw_docs = NoDocs | NotArray | Docs "'a list"

text \<open>The \<open>data\<close> member of a paginated response, as Home and Threads read it.\<close>

record 'd page_data =
  pd_docs :: "'d doc raw_docs"
  pd_page :: "int option"
  pd_totalPages :: "int option"
  pd_hasNextPage :: "bool option"

text \<open>\<^verbatim>\<open>Array.isArray(data?.docs) ? data.docs : []\<close>, with \<open>data = apiRes?.data\<close>.\<close>

definition docs_guard :: "'d page_data option \<Rightarrow> 'd doc list" where
  "docs_guard data =
     (case data of None \<Rightarrow> []
      | Some d \<Rightarrow> (case pd_docs d of Docs xs \<Rightarrow> xs | _ \<Rightarrow> []))"

section \<open>Home\<close>

text \<open>
  React state of the component (\<open>useState\<close>), the ref \<open>lockRef\<close> (\<open>useRef\<close>), and the log
  of the errors handed to \<open>showError\<close>, which only raises a toast. A handler reads state
  values from the render that created it (its closure, \<open>c\<close> below), whereas a ref and
  the argument of a functional updater are read live (\<open>s\<close> below).
\<close>

record 'd home_state =
  h_items :: "'d doc list"
  h_page :: int
  h_hasNextPage :: bool
  h_loadingFirst :: bool
  h_loadingMore :: bool
  h_lockRef :: bool
  h_toasts :: "js_error list"

text \<open>The option \<open>append\<close> of \<open>fetchPage\<close> is the parameter \<open>appendMode\<close> below.\<close>

definition LIMIT :: int where
  "LIMIT = 12"

definition home_fetchPage_begin ::
    "'d home_state \<Rightarrow> int \<Rightarrow> bool \<Rightarrow> 'd home_state \<times> page_request option" where
  "home_fetchPage_begin s targetPage appendMode =
     (if h_lockRef s then (s, None)
      else
        (let s1 = s\<lparr>h_lockRef := True\<rparr>;
             s2 = (if \<not> appendMode then s1\<lparr>h_loadingFirst := True\<rparr> else s1);
             s3 = (if appendMode then s2\<lparr>h_loadingMore := True\<rparr> else s2)
         in (s3, Some \<lparr>req_page = targetPage, req_limit = LIMIT\<rparr>)))"

definition home_fetchPage_settle ::
    "'d home_state \<Rightarrow> int \<Rightarrow> bool \<Rightarrow> 'd page_data option outcome \<Rightarrow> 'd home_state" where
  "home_fetchPage_settle s targetPage appendMode out =
     (let s1 =
        (case out of
           Resolved data \<Rightarrow>
             (let docs = docs_guard data
              in s\<lparr>h_page := (case Option.bind data pd_page of
                                 None \<Rightarrow> targetPage | Some p \<Rightarrow> p),
                    h_hasNextPage := (case Option.bind data pd_hasNextPage of
                                        None \<Rightarrow> False | Some b \<Rightarrow> b),
                    h_items := (if \<not> appendMode then docs else mergeById (h_items s) docs)\<rparr>)
         | Rejected err \<Rightarrow> s\<lparr>h_toasts := h_toasts s @ [err]\<rparr>);
          s2 = (if \<not> appendMode then s1\<lparr>h_loadingFirst := False\<rparr> else s1);
          s3 = (if appendMode then s2\<lparr>h_loadingMore := False\<rparr> else s2)
      in s3\<lparr>h_lockRef := False\<rparr>)"

definition home_fetchPage ::
    "'d home_state \<Rightarrow> int \<Rightarrow> bool \<Rightarrow> 'd page_data option outcome \<Rightarrow> 'd home_state" where
  "home_fetchPage s targetPage appendMode out =
     (case home_fetchPage_begin s targetPage appendMode of
        (s', None) \<Rightarrow> s'
      | (s', Some req) \<Rightarrow> home_fetchPage_settle s' targetPage appendMode out)"

text \<open>
  The callback of the intersection observer, for an intersecting entry: the load-next
  operation of Home, up to its \<open>await\<close>.
\<close>

definition home_loadNext_begin ::
    "'d home_state \<Rightarrow> 'd home_state \<Rightarrow> 'd home_state \<times> page_request option" where
  "home_loadNext_begin c s =
     (if \<not> h_hasNextPage c then (s, None)
      else if h_loadingFirst c \<or> h_loadingMore c then (s, None)
      else if h_lockRef s then (s, None)
      else home_fetchPage_begin s (h_page c + 1) True)"

definition home_loadNext ::
    "'d home_state \<Rightarrow> 'd page_data option outcome \<Rightarrow> 'd home_state" where
  "home_loadNext s out =
     (case home_loadNext_begin s s of
        (s', None) \<Rightarrow> s'
      | (s', Some req) \<Rightarrow> home_fetchPage_settle s' (req_page req) True out)"

section \<open>Threads\<close>

record 'd threads_state =
  t_rows :: "'d doc list"
  t_page :: int
  t_totalPages :: int
  t_loadingFirst :: bool
  t_loadingMore :: bool
  t_error :: "js_error option"
  t_loadingRef :: bool
  t_toasts :: "js_error list"

definition t_hasMore :: "'d threads_state \<Rightarrow> bool" where
  "t_hasMore s = (t_page s < t_totalPages s)"

definition threads_fetchPage_begin ::
    "'d threads_state \<Rightarrow> int \<Rightarrow> bool \<Rightarrow> 'd threads_state \<times> page_request option" where
  "threads_fetchPage_begin s targetPage isAppend =
     (if t_loadingRef s then (s, None)
      else
        (let s1 = s\<lparr>t_loadingRef := True, t_error := None\<rparr>;
             s2 = (if \<not> isAppend then s1\<lparr>t_loadingFirst := True\<rparr> else s1);
             s3 = (if isAppend then s2\<lparr>t_loadingMore := True\<rparr> else s2)
         in (s3, Some \<lparr>req_page = targetPage, req_limit = 5\<rparr>)))"

definition threads_fetchPage_settle ::
    "'d threads_state \<Rightarrow> int \<Rightarrow> bool \<Rightarrow> 'd page_data option outcome \<Rightarrow> 'd threads_state"
    where
  "threads_fetchPage_settle s targetPage isAppend out =
     (let s1 =
        (case out of
           Resolved data \<Rightarrow>
             (let docs = docs_guard data
              in s\<lparr>t_page := (case Option.bind data pd_page of
                                 None \<Rightarrow> targetPage | Some p \<Rightarrow> p),
                    t_totalPages := (case Option.bind data pd_totalPages of
                                       None \<Rightarrow> 1 | Some n \<Rightarrow> n),
                    t_rows := (if \<not> isAppend then docs else mergeById (t_rows s) docs)\<rparr>)
         | Rejected err \<Rightarrow> s\<lparr>t_error := Some err, t_toasts := t_toasts s @ [err]\<rparr>);
          s2 = (if \<not> isAppend then s1\<lparr>t_loadingFirst := False\<rparr> else s1);
          s3 = (if isAppend then s2\<lparr>t_loadingMore := False\<rparr> else s2)
      in s3\<lparr>t_loadingRef := False\<rparr>)"

definition threads_loadNext_begin ::
    "'d threads_state \<Rightarrow> 'd threads_state \<Rightarrow> 'd threads_state \<times> page_request option" where
  "threads_loadNext_begin c s =
     (if t_hasMore c \<and> \<not> t_loadingRef s \<and> \<not> t_loadingMore c \<and> \<not> t_loadingFirst c
      then threads_fetchPage_begin s (t_page c + 1) True
      else (s, None))"

definition threads_loadNext ::
    "'d threads_state \<Rightarrow> 'd page_data option outcome \<Rightarrow> 'd threads_state" where
  "threads_loadNext s out =
     (case threads_loadNext_begin s s of
        (s', None) \<Rightarrow> s'
      | (s', Some req) \<Rightarrow> threads_fetchPage_settle s' (req_page req) True out)"

section \<open>SuggestedVideos\<close>

text \<open>
  \<open>payload.data\<close> as SuggestedVideos reads it: \<open>payload.data?.docs ?? []\<close> and
  \<open>payload.data?.totalPages ?? 1\<close>, with \<open>docs\<close> of type \<open>T[]\<close>. The response body
  \<open>payload\<close> itself is an object; \<open>None\<close> below stands for a nullish \<open>payload.data\<close>.
\<close>

record 'd paginated =
  pg_docs :: "'d doc list option"
  pg_totalPages :: "int option"

record 'd suggested_state =
  sv_items :: "'d doc list"
  sv_page :: int
  sv_totalPages :: int
  sv_loading :: bool
  sv_loadingMore :: bool
  sv_toasts :: "js_error list"

definition sv_hasMore :: "'d suggested_state \<Rightarrow> bool" where
  "sv_hasMore s = (sv_page s < sv_totalPages s)"

text \<open>The effect that runs when \<open>videoId\<close> changes.\<close>

definition sv_reset :: "'d suggested_state \<Rightarrow> 'd suggested_state" where
  "sv_reset s = s\<lparr>sv_items := [], sv_page := 1, sv_totalPages := 1\<rparr>"

definition sv_fetchPage_begin ::
    "string \<Rightarrow> int \<Rightarrow> 'd suggested_state \<Rightarrow> int \<Rightarrow> 'd suggested_state \<times> page_request option"
    where
  "sv_fetchPage_begin videoId limit s p =
     (if videoId = [] then (s, None)
      else ((if p = 1 then s\<lparr>sv_loading := True\<rparr> else s\<lparr>sv_loadingMore := True\<rparr>),
            Some \<lparr>req_page = p, req_limit = limit\<rparr>))"

definition sv_fetchPage_settle ::
    "'d suggested_state \<Rightarrow> 'd paginated option outcome \<Rightarrow> 'd suggested_state" where
  "sv_fetchPage_settle s out =
     (let s1 =
        (case out of
           Resolved data \<Rightarrow>
             (let docs = (case Option.bind data pg_docs of None \<Rightarrow> [] | Some xs \<Rightarrow> xs);
                  tp = (case Option.bind data pg_totalPages of None \<Rightarrow> 1 | Some n \<Rightarrow> n)
              in s\<lparr>sv_totalPages := tp, sv_items := mergeById (sv_items s) docs\<rparr>)
         | Rejected err \<Rightarrow> s\<lparr>sv_toasts := sv_toasts s @ [err]\<rparr>)
      in s1\<lparr>sv_loading := False, sv_loadingMore := False\<rparr>)"

text \<open>\<open>onLoadMore\<close>: the guard reads the closure, \<open>setPage(next)\<close> runs before the fetch.\<close>

definition sv_onLoadMore_begin ::
    "string \<Rightarrow> int \<Rightarrow> 'd suggested_state \<Rightarrow> 'd suggested_state
      \<Rightarrow> 'd suggested_state \<times> page_request option" where
  "sv_onLoadMore_begin videoId limit c s =
     (if sv_loadingMore c \<or> sv_loading c \<or> \<not> sv_hasMore c then (s, None)
      else
        (let next = sv_page c + 1
         in sv_fetchPage_begin videoId limit (s\<lparr>sv_page := next\<rparr>) next))"

definition sv_onLoadMore ::
    "string \<Rightarrow> int \<Rightarrow> 'd suggested_state \<Rightarrow> 'd paginated option outcome
      \<Rightarrow> 'd suggested_state" where
  "sv_onLoadMore videoId limit s out =
     (case sv_onLoadMore_begin videoId limit s s of
        (s', None) \<Rightarrow> s'
      | (s', Some req) \<Rightarrow> sv_fetchPage_settle s' out)"

section \<open>CommentsSection\<close>

text \<open>\<open>res.data.data\<close>; reading a member of it raises a \<open>TypeError\<close> when it is nullish.\<close>

record 'd comment_page =
  cp_docs :: "'d doc list option"
  cp_totalDocs :: "int option"
  cp_hasNextPage :: "bool option"

datatype fetch_mode = Replace | Append

record 'd comments_state =
  c_items :: "'d doc list"
  c_loading :: bool
  c_page :: int
  c_hasNextPage :: bool
  c_totalDocs :: int
  c_toasts :: "js_error list"

definition comments_fetchPage_begin ::
    "int \<Rightarrow> 'd comments_state \<Rightarrow> int \<Rightarrow> 'd comments_state \<times> page_request option" where
  "comments_fetchPage_begin pageSize s p =
     (s\<lparr>c_loading := True\<rparr>, Some \<lparr>req_page = p, req_limit = pageSize\<rparr>)"

definition comments_fetchPage_settle ::
    "'d comments_state \<Rightarrow> int \<Rightarrow> fetch_mode \<Rightarrow> 'd comment_page option outcome
      \<Rightarrow> 'd comments_state" where
  "comments_fetchPage_settle s p mode out =
     (let s1 =
        (case out of
           Resolved None \<Rightarrow> s\<lparr>c_toasts := c_toasts s @ [TypeError]\<rparr>
         | Resolved (Some data) \<Rightarrow>
             (let docs = (case cp_docs data of None \<Rightarrow> [] | Some xs \<Rightarrow> xs)
              in s\<lparr>c_totalDocs := (case cp_totalDocs data of None \<Rightarrow> 0 | Some n \<Rightarrow> n),
                    c_hasNextPage := (case cp_hasNextPage data of None \<Rightarrow> False | Some b \<Rightarrow> b),
                    c_items := (case mode of Replace \<Rightarrow> docs | Append \<Rightarrow> c_items s @ docs),
                    c_page := p\<rparr>)
         | Rejected err \<Rightarrow> s\<lparr>c_toasts := c_toasts s @ [err]\<rparr>)
      in s1\<lparr>c_loading := False\<rparr>)"

definition comments_fetchPage ::
    "int \<Rightarrow> 'd comments_state \<Rightarrow> int \<Rightarrow> fetch_mode \<Rightarrow> 'd comment_page option outcome
      \<Rightarrow> 'd comments_state" where
  "comments_fetchPage pageSize s p mode out =
     comments_fetchPage_settle (fst (comments_fetchPage_begin pageSize s p)) p mode out"

text \<open>
  The effect that runs when \<open>videoId\<close> changes, up to the \<open>await\<close> of the first fetch.
\<close>

definition comments_reset ::
    "string \<Rightarrow> int \<Rightarrow> 'd comments_state \<Rightarrow> 'd comments_state \<times> page_request option" where
  "comments_reset videoId pageSize s =
     (if videoId = [] then (s, None)
      else comments_fetchPage_begin pageSize
             (s\<lparr>c_items := [], c_page := 1, c_hasNextPage := False, c_totalDocs := 0\<rparr>) 1)"

section \<open>Response payloads of unknown shape\<close>

text \<open>
  \<open>extractPlaylists\<close> takes a payload of type \<open>any\<close>: a JSON value, or \<open>undefined\<close>.
  Numbers matter only through their truthiness (zero or not).
\<close>

datatype json =
    JUndefined
  | JNull
  | JBool bool
  | JNum int
  | JStr string
  | JArr "json list"
  | JObj "(string \<times> json) list"

definition nullish :: "json \<Rightarrow> bool" where
  "nullish x = (x = JUndefined \<or> x = JNull)"

text \<open>
  The member access \<open>x.k\<close>: a \<open>TypeError\<close> on \<open>undefined\<close> and \<open>null\<close>, the member of an
  object when it has one, \<open>undefined\<close> otherwise. The code only reads the keys \<open>docs\<close>,
  \<open>data\<close> and \<open>message\<close>, which arrays, strings, numbers and booleans do not have.
\<close>

definition member :: "json \<Rightarrow> string \<Rightarrow> js_error + json" where
  "member x k =
     (case x of
        JUndefined \<Rightarrow> Inl TypeError
      | JNull \<Rightarrow> Inl TypeError
      | JObj kvs \<Rightarrow> (case map_of kvs k of None \<Rightarrow> Inr JUndefined | Some v \<Rightarrow> Inr v)
      | _ \<Rightarrow> Inr JUndefined)"

text \<open>Optional chaining \<open>x?.k\<close>.\<close>

definition opt_member :: "json \<Rightarrow> string \<Rightarrow> json" where
  "opt_member x k =
     (if nullish x then JUndefined
      else (case member x k of Inl e \<Rightarrow> JUndefined | Inr v \<Rightarrow> v))"

definition truthy :: "json \<Rightarrow> bool" where
  "truthy x =
     (case x of
        JUndefined \<Rightarrow> False
      | JNull \<Rightarrow> False
      | JBool b \<Rightarrow> b
      | JNum n \<Rightarrow> n \<noteq> 0
      | JStr t \<Rightarrow> t \<noteq> []
      | JArr xs \<Rightarrow> True
      | JObj kvs \<Rightarrow> True)"

text \<open>The operators \<open>a || b\<close> and \<open>a ?? b\<close>; their operands here have no effects.\<close>

definition js_or :: "json \<Rightarrow> json \<Rightarrow> json" where
  "js_or a b = (if truthy a then a else b)"

definition coalesce :: "json \<Rightarrow> json \<Rightarrow> json" where
  "coalesce a b = (if nullish a then b else a)"

definition isArray :: "json \<Rightarrow> bool" where
  "isArray x = (case x of JArr xs \<Rightarrow> True | _ \<Rightarrow> False)"

definition elements :: "json \<Rightarrow> json list" where
  "elements x = (case x of JArr xs \<Rightarrow> xs | _ \<Rightarrow> [])"

definition extractPlaylists :: "json \<Rightarrow> js_error + json list" where
  "extractPlaylists payload =
     (let base = coalesce (opt_member payload ''data'')
                   (coalesce (opt_member payload ''message'') payload);
          docs =
            js_or (opt_member base ''docs'')
              (js_or (opt_member (opt_member base ''data'') ''docs'')
                (js_or (opt_member (opt_member (opt_member base ''data'') ''data'') ''docs'')
                  (js_or (opt_member base ''data'') base)))
      in if isArray docs then Inr (elements docs)
         else if isArray (opt_member docs ''docs'')
           then (case member docs ''docs'' of Inl e \<Rightarrow> Inl e | Inr d \<Rightarrow> Inr (elements d))
         else Inr [])"

section \<open>Watch\<close>

text \<open>
  An entry of \<open>videos\<close> in a playlist is an id or a video document (\<open>any[]\<close>):
  \<open>String(v?._id || v)\<close> is the id itself, the \<open>_id\<close> of a document that has a
  non-empty one, and the text of the value otherwise.
\<close>

datatype video_ref = IdString string | VideoDoc "string option" | NullRef

fun ref_string :: "video_ref \<Rightarrow> string" where
  "ref_string (IdString i) = i"
| "ref_string (VideoDoc (Some i)) = (if i \<noteq> [] then i else ''[object Object]'')"
| "ref_string (VideoDoc None) = ''[object Object]''"
| "ref_string NullRef = ''null''"

record playlist =
  pl_id :: string
  pl_name :: string
  pl_videos :: "video_ref list option"

definition getIdsFromPlaylistVideos :: "video_ref list option \<Rightarrow> string list" where
  "getIdsFromPlaylistVideos videos =
     (case videos of
        None \<Rightarrow> []
      | Some vs \<Rightarrow>
          filter (\<lambda>x. x \<noteq> [] \<and> x \<noteq> ''undefined'' \<and> x \<noteq> ''null'') (map ref_string vs))"

text \<open>
  The state of the page that the toggles use. \<open>w_video_id\<close> is \<open>video?._id\<close> and
  \<open>w_channelId\<close> is \<open>owner?._id\<close>. \<open>showError\<close> raises a toast (and, for an expired
  session, clears the stored token and navigates to the login page); it sets none of
  these state variables, so the model logs the error it was given.
\<close>

record watch_state =
  w_video_id :: "string option"
  w_channelId :: "string option"
  w_userId :: "string option"
  w_liked :: bool
  w_likesCount :: int
  w_liking :: bool
  w_subscribed :: bool
  w_subscribing :: bool
  w_playlists :: "playlist list"
  w_plLoading :: bool
  w_toasts :: "js_error list"

text \<open>A missing id and the empty string are both falsy.\<close>

definition present :: "string option \<Rightarrow> bool" where
  "present i = (case i of None \<Rightarrow> False | Some t \<Rightarrow> t \<noteq> [])"

definition id_text :: "string option \<Rightarrow> string" where
  "id_text i = (case i of None \<Rightarrow> [] | Some t \<Rightarrow> t)"

text \<open>\<open>toLowerCase\<close> on the ASCII letters; \<open>str_includes\<close> is \<open>String.prototype.includes\<close>, the search for a substring.\<close>

definition lower_char :: "char \<Rightarrow> char" where
  "lower_char ch =
     (let n = (of_char ch :: nat)
      in if 65 \<le> n \<and> n \<le> 90 then char_of (n + 32) else ch)"

definition toLowerCase :: "string \<Rightarrow> string" where
  "toLowerCase t = map lower_char t"

fun str_includes :: "string \<Rightarrow> string \<Rightarrow> bool" where
  "str_includes [] sub = (sub = [])"
| "str_includes (ch # t) sub = (take (length sub) (ch # t) = sub \<or> str_includes t sub)"

text \<open>\<open>res?.data?.message || ""\<close>\<close>

definition message_or_empty :: "string option \<Rightarrow> string" where
  "message_or_empty m = (case m of None \<Rightarrow> [] | Some t \<Rightarrow> t)"

definition handleToggleLike_begin :: "watch_state \<Rightarrow> watch_state \<times> string option" where
  "handleToggleLike_begin s =
     (if \<not> present (w_video_id s) then (s, None)
      else if w_liking s then (s, None)
      else
        (let prevLiked = w_liked s;
             prevCount = w_likesCount s;
             nextLiked = (\<not> prevLiked);
             nextCount = max 0 (prevCount + (if nextLiked then 1 else - 1))
         in (s\<lparr>w_liked := nextLiked, w_likesCount := nextCount, w_liking := True\<rparr>,
             Some (id_text (w_video_id s)))))"

text \<open>
  The continuation after \<open>await toggleVideoLike\<close>. \<open>c\<close> is the state that the handler
  was created in: \<open>prevLiked\<close>, \<open>prevCount\<close> and \<open>nextLiked\<close> come from there.
\<close>

definition handleToggleLike_settle ::
    "watch_state \<Rightarrow> watch_state \<Rightarrow> string option outcome \<Rightarrow> watch_state" where
  "handleToggleLike_settle c s out =
     (let prevLiked = w_liked c;
          prevCount = w_likesCount c;
          nextLiked = (\<not> prevLiked);
          s1 =
            (case out of
               Resolved message \<Rightarrow>
                 (let lower = toLowerCase (message_or_empty message);
                      serverLiked =
                        (if str_includes lower ''created'' then True
                         else if str_includes lower ''deleted'' then False
                         else nextLiked)
                  in if serverLiked \<noteq> nextLiked
                     then s\<lparr>w_liked := serverLiked,
                            w_likesCount :=
                              max 0 (prevCount + (if serverLiked then 1 else 0)
                                       - (if prevLiked then 1 else 0))\<rparr>
                     else s)
             | Rejected err \<Rightarrow>
                 s\<lparr>w_liked := prevLiked, w_likesCount := prevCount,
                   w_toasts := w_toasts s @ [err]\<rparr>)
      in s1\<lparr>w_liking := False\<rparr>)"

definition handleToggleLike :: "watch_state \<Rightarrow> string option outcome \<Rightarrow> watch_state" where
  "handleToggleLike s out =
     (case handleToggleLike_begin s of
        (s', None) \<Rightarrow> s'
      | (s', Some req) \<Rightarrow> handleToggleLike_settle s s' out)"

definition handleToggleSubscribe_begin :: "watch_state \<Rightarrow> watch_state \<times> string option" where
  "handleToggleSubscribe_begin s =
     (if \<not> present (w_channelId s) then (s, None)
      else if w_subscribing s then (s, None)
      else (s\<lparr>w_subscribed := (\<not> w_subscribed s), w_subscribing := True\<rparr>,
            Some (id_text (w_channelId s))))"

definition handleToggleSubscribe_settle ::
    "watch_state \<Rightarrow> watch_state \<Rightarrow> string option outcome \<Rightarrow> watch_state" where
  "handleToggleSubscribe_settle c s out =
     (let prev = w_subscribed c;
          next = (\<not> prev);
          s1 =
            (case out of
               Resolved message \<Rightarrow>
                 (let lower = toLowerCase (message_or_empty message);
                      serverSubscribed =
                        (if str_includes lower ''unsub'' then False
                         else if str_includes lower ''subscribed'' then True
                         else next)
                  in s\<lparr>w_subscribed := serverSubscribed\<rparr>)
             | Rejected err \<Rightarrow>
                 s\<lparr>w_subscribed := prev, w_toasts := w_toasts s @ [err]\<rparr>)
      in s1\<lparr>w_subscribing := False\<rparr>)"

definition handleToggleSubscribe :: "watch_state \<Rightarrow> string option outcome \<Rightarrow> watch_state"
    where
  "handleToggleSubscribe s out =
     (case handleToggleSubscribe_begin s of
        (s', None) \<Rightarrow> s'
      | (s', Some req) \<Rightarrow> handleToggleSubscribe_settle s s' out)"

datatype playlist_request = RemoveVideo string string | AddVideo string string

definition toggleVideoInPlaylist_begin ::
    "watch_state \<Rightarrow> playlist \<Rightarrow> watch_state \<times> playlist_request option" where
  "toggleVideoInPlaylist_begin s pl =
     (if \<not> present (w_video_id s) then (s, None)
      else
        (let vid = id_text (w_video_id s);
             ids = getIdsFromPlaylistVideos (pl_videos pl);
             already = (vid \<in> set ids);
             s1 = s\<lparr>w_playlists :=
                    map (\<lambda>x. if pl_id x \<noteq> pl_id pl then x
                              else
                                (let currentIds = getIdsFromPlaylistVideos (pl_videos x);
                                     nextIds = (if already
                                                then filter (\<lambda>i. i \<noteq> vid) currentIds
                                                else vid # currentIds)
                                 in x\<lparr>pl_videos := Some (map IdString nextIds)\<rparr>))
                        (w_playlists s)\<rparr>
         in (s1, Some (if already then RemoveVideo (pl_id pl) vid
                       else AddVideo (pl_id pl) vid))))"

definition toggleVideoInPlaylist_settle ::
    "watch_state \<Rightarrow> watch_state \<Rightarrow> unit outcome \<Rightarrow> watch_state" where
  "toggleVideoInPlaylist_settle c s out =
     (let prev = w_playlists c
      in case out of
           Resolved u \<Rightarrow> s
         | Rejected err \<Rightarrow> s\<lparr>w_playlists := prev, w_toasts := w_toasts s @ [err]\<rparr>)"

definition toggleVideoInPlaylist ::
    "watch_state \<Rightarrow> playlist \<Rightarrow> unit outcome \<Rightarrow> watch_state" where
  "toggleVideoInPlaylist s pl out =
     (case toggleVideoInPlaylist_begin s pl of
        (s', None) \<Rightarrow> s'
      | (s', Some req) \<Rightarrow> toggleVideoInPlaylist_settle s s' out)"

text \<open>
  \<open>fetchPlaylists\<close>, the caller of \<open>extractPlaylists\<close>. The cast of the extracted values
  to \<open>ApiPlaylist[]\<close> is the parameter \<open>asPlaylist\<close>.
\<close>

definition fetchPlaylists ::
    "(json \<Rightarrow> playlist) \<Rightarrow> watch_state \<Rightarrow> json outcome \<Rightarrow> watch_state" where
  "fetchPlaylists asPlaylist s out =
     (if \<not> present (w_userId s) then s
      else
        (let s0 = s\<lparr>w_plLoading := True\<rparr>;
             failed = (\<lambda>err. s0\<lparr>w_toasts := w_toasts s0 @ [err], w_playlists := []\<rparr>);
             s1 =
               (case out of
                  Resolved payload \<Rightarrow>
                    (case extractPlaylists payload of
                       Inl err \<Rightarrow> failed err
                     | Inr list \<Rightarrow> s0\<lparr>w_playlists := map asPlaylist list\<rparr>)
                | Rejected err \<Rightarrow> failed err)
         in s1\<lparr>w_plLoading := False\<rparr>))"

section \<open>Where an array is looked for\<close>

text \<open>
  The envelope shapes that \<open>extractPlaylists\<close> checks: below each of \<open>payload.data\<close>,
  \<open>payload.message\<close> and \<open>payload\<close> itself, the members \<open>docs\<close>, \<open>data.docs\<close>,
  \<open>data.data.docs\<close>, \<open>data\<close> and the value itself, and the member \<open>docs\<close> of each of
  these.
\<close>

definition shapes_from :: "json \<Rightarrow> json list" where
  "shapes_from base =
     [opt_member base ''docs'',
      opt_member (opt_member base ''data'') ''docs'',
      opt_member (opt_member (opt_member base ''data'') ''data'') ''docs'',
      opt_member base ''data'',
      base]"

definition found_shapes :: "json \<Rightarrow> json list" where
  "found_shapes payload =
     concat (map shapes_from
       [opt_member payload ''data'', opt_member payload ''message'', payload])"

definition checked_shapes :: "json \<Rightarrow> json list" where
  "checked_shapes payload =
     found_shapes payload @ map (\<lambda>c. opt_member c ''docs'') (found_shapes payload)"

text \<open>No array sits at any of the checked shapes.\<close>

definition no_array_located :: "json \<Rightarrow> bool" where
  "no_array_located payload = list_all (\<lambda>c. \<not> isArray c) (checked_shapes payload)"

text \<open>For the guard of Home and Threads: \<open>data?.docs\<close> is not an array.\<close>

definition docs_missing :: "'d page_data option \<Rightarrow> bool" where
  "docs_missing data =
     (case data of
        None \<Rightarrow> True
      | Some d \<Rightarrow> (case pd_docs d of Docs xs \<Rightarrow> False | _ \<Rightarrow> True))"

section \<open>Example data\<close>

definition mk :: "string \<Rightarrow> nat \<Rightarrow> nat doc" where
  "mk i d = \<lparr>doc_id = i, doc_data = d\<rparr>"

text \<open>Two pages of ten documents; the first of page two has the key of the last of page one.\<close>

definition scenario_page_one :: "nat doc list" where
  "scenario_page_one =
     [mk ''v01'' 1, mk ''v02'' 2, mk ''v03'' 3, mk ''v04'' 4, mk ''v05'' 5,
      mk ''v06'' 6, mk ''v07'' 7, mk ''v08'' 8, mk ''v09'' 9, mk ''v10'' 10]"

definition scenario_page_two :: "nat doc list" where
  "scenario_page_two =
     [mk ''v10'' 110, mk ''v11'' 111, mk ''v12'' 112, mk ''v13'' 113, mk ''v14'' 114,
      mk ''v15'' 115, mk ''v16'' 116, mk ''v17'' 117, mk ''v18'' 118, mk ''v19'' 119]"

definition ex_watch :: watch_state where
  "ex_watch = \<lparr>w_video_id = Some ''vid1'', w_channelId = Some ''ch1'', w_userId = Some ''u1'',
      w_liked = False, w_likesCount = 5, w_liking = False,
      w_subscribed = False, w_subscribing = False,
      w_playlists = [], w_plLoading = False, w_toasts = []\<rparr>"

definition ex_suggested :: "nat suggested_state" where
  "ex_suggested = \<lparr>sv_items = [mk ''v01'' 1], sv_page = 1, sv_totalPages = 3,
      sv_loading = False, sv_loadingMore = False, sv_toasts = []\<rparr>"



definition ex_comments :: "nat comments_state" where
  "ex_comments = \<lparr>c_items = [mk ''c01'' 1], c_loading = False, c_page = 2,
      c_hasNextPage = True, c_totalDocs = 30, c_toasts = []\<rparr>"

text \<open>A response whose list sits under a key that is not checked, and one without \<open>docs\<close>.\<close>

definition ex_malformed :: json where
  "ex_malformed = JObj [(''statusCode'', JNum 200),
      (''data'', JObj [(''playlists'', JArr [JStr ''p1''])]), (''success'', JBool True)]"

definition ex_page_data :: "nat page_data option" where
  "ex_page_data = Some \<lparr>pd_docs = NotArray, pd_page = Some 1, pd_totalPages = Some 1,
      pd_hasNextPage = Some False\<rparr>"

definition ex_as_playlist :: "json \<Rightarrow> playlist" where
  "ex_as_playlist j = \<lparr>pl_id = [], pl_name = [], pl_videos = None\<rparr>"

section \<open>Auxiliary notions for the proofs\<close>

definition keyed :: "(string, ('d, 'z) doc_scheme) js_map \<Rightarrow> bool" where
  "keyed m = list_all (\<lambda>(k, v). doc_id v = k) m"

text \<open>The bindings made by one pass of the loop, as a finite map: the last one wins.\<close>

definition bindings :: "('d, 'z) doc_scheme list \<Rightarrow> (string \<rightharpoonup> ('d, 'z) doc_scheme)" where
  "bindings vs = map_of (rev (map (\<lambda>v. (doc_id v, v)) vs))"

section \<open>Properties of \<open>map_set\<close> and of the merge\<close>

lemma keys_map_set:
  "map fst (map_set m k v) = (if k \<in> set (map fst m) then map fst m else map fst m @ [k])"
  by (induction m) force+

lemma distinct_map_set:
  "distinct (map fst m) \<Longrightarrow> distinct (map fst (map_set m k v))"
  by (simp add: keys_map_set)

lemma map_of_map_set: "map_of (map_set m k v) = (map_of m)(k \<mapsto> v)"
  by (induction m) auto

lemma set_map_set_subset: "set (map_set m k v) \<subseteq> insert (k, v) (set m)"
  by (induction m) (auto split: if_splits)

lemma keyed_map_set: "keyed m \<Longrightarrow> keyed (map_set m (doc_id v) v)"
  using set_map_set_subset [of m "doc_id v" v]
  by (auto simp: keyed_def list_all_iff)

lemma keyed_values: "keyed m \<Longrightarrow> map doc_id (map_values m) = map fst m"
  by (induction m) (auto simp: keyed_def map_values_def)

lemma keyed_set_all: "keyed m \<Longrightarrow> keyed (set_all m vs)"
  by (induction vs arbitrary: m) (auto simp: keyed_map_set)

lemma distinct_set_all:
  "distinct (map fst m) \<Longrightarrow> distinct (map fst (set_all m vs))"
  by (induction vs arbitrary: m) (auto simp: distinct_map_set)

lemma keys_set_eq: "fst ` set (map_set m k v) = insert k (fst ` set m)"
  using arg_cong [OF keys_map_set [of m k v], of set] by (auto simp: image_iff)

lemma keys_set_all:
  "fst ` set (set_all m vs) = fst ` set m \<union> doc_id ` set vs"
  by (induction vs arbitrary: m) (simp_all add: keys_set_eq)

lemma keys_set_all_present:
  "doc_id ` set vs \<subseteq> fst ` set m \<Longrightarrow> map fst (set_all m vs) = map fst m"
proof (induction vs arbitrary: m)
  case Nil
  show ?case by simp
next
  case (Cons v vs)
  have "doc_id ` set vs \<subseteq> fst ` set (map_set m (doc_id v) v)"
    using Cons.prems by (auto simp: keys_set_eq)
  then have "map fst (set_all (map_set m (doc_id v) v) vs) = map fst (map_set m (doc_id v) v)"
    by (rule Cons.IH)
  also have "\<dots> = map fst m"
    using Cons.prems by (simp add: keys_map_set)
  finally show ?case by simp
qed

lemma keys_set_all_prefix:
  "\<exists>ks. map fst (set_all m vs) = map fst m @ ks"
proof (induction vs arbitrary: m)
  case Nil
  show ?case by simp
next
  case (Cons v vs)
  obtain ks where "map fst (set_all (map_set m (doc_id v) v) vs)
      = map fst (map_set m (doc_id v) v) @ ks"
    using Cons.IH by blast
  then show ?case by (auto simp: keys_map_set)
qed

lemma map_of_set_all: "map_of (set_all m vs) = map_of m ++ bindings vs"
proof (induction vs arbitrary: m)
  case Nil
  show ?case by (simp add: bindings_def)
next
  case (Cons v vs)
  have "map_of (set_all m (v # vs)) = map_of (map_set m (doc_id v) v) ++ bindings vs"
    by (simp only: set_all.simps Cons.IH)
  also have "\<dots> = (map_of m)(doc_id v \<mapsto> v) ++ bindings vs"
    by (simp only: map_of_map_set)
  also have "\<dots> = map_of m ++ ([doc_id v \<mapsto> v] ++ bindings vs)"
    by (rule ext) (simp add: map_add_def split: option.splits)
  also have "[doc_id v \<mapsto> v] ++ bindings vs = bindings (v # vs)"
    by (simp add: bindings_def)
  finally show ?case .
qed

lemma bindings_distinct:
  "distinct (map doc_id vs) \<Longrightarrow> x \<in> set vs \<Longrightarrow> bindings vs (doc_id x) = Some x"
  unfolding bindings_def
  by (intro map_of_is_SomeI) (auto simp: rev_map [symmetric] comp_def)

lemma alist_eqI:
  "distinct (map fst a) \<Longrightarrow> map fst a = map fst b \<Longrightarrow> map_of a = map_of b \<Longrightarrow> a = b"
proof (induction a arbitrary: b)
  case Nil
  then show ?case by simp
next
  case (Cons p a)
  obtain q b' where b: "b = q # b'"
    using Cons.prems(2) by (cases b) auto
  have k: "fst p = fst q" and ks: "map fst a = map fst b'"
    using Cons.prems(2) b by auto
  have "map_of (p # a) (fst p) = map_of (q # b') (fst p)"
    using fun_cong [OF Cons.prems(3), of "fst p"] b by (simp only:)
  then have v: "snd p = snd q"
    using k by simp
  have notin: "fst p \<notin> set (map fst a)"
    using Cons.prems(1) by simp
  have "map_of a = map_of b'"
  proof
    fix x
    show "map_of a x = map_of b' x"
    proof (cases "x = fst p")
      case True
      then have "map_of a x = None" "map_of b' x = None"
        using notin arg_cong [OF ks, of set] by (simp_all add: map_of_eq_None_iff)
      then show ?thesis by simp
    next
      case False
      have "map_of (p # a) x = map_of (q # b') x"
        using fun_cong [OF Cons.prems(3), of x] b by (simp only:)
      then show ?thesis
        using False k by (cases p; cases q) (auto split: if_splits)
    qed
  qed
  then have "a = b'"
    using Cons.IH Cons.prems(1) ks by simp
  then show ?case
    using b k v by (simp add: prod_eq_iff)
qed

lemma set_all_twice:
  assumes "distinct (map fst m)"
  shows "set_all (set_all m vs) vs = set_all m vs"
proof (rule alist_eqI)
  show "distinct (map fst (set_all (set_all m vs) vs))"
    using assms by (simp add: distinct_set_all)
  show "map fst (set_all (set_all m vs) vs) = map fst (set_all m vs)"
    by (rule keys_set_all_present) (simp add: keys_set_all)
  show "map_of (set_all (set_all m vs) vs) = map_of (set_all m vs)"
    unfolding map_of_set_all
    by (rule ext) (simp add: map_add_def split: option.splits)
qed

lemma set_all_values:
  "keyed m \<Longrightarrow> distinct (map fst (m0 @ m)) \<Longrightarrow> set_all m0 (map_values m) = m0 @ m"
proof (induction m arbitrary: m0)
  case Nil
  show ?case by (simp add: map_values_def)
next
  case (Cons p m)
  obtain k v where p: "p = (k, v)" by (cases p)
  have kv: "doc_id v = k" and km: "keyed m"
    using Cons.prems(1) p by (simp_all add: keyed_def)
  have fresh: "k \<notin> set (map fst m0)"
    using Cons.prems(2) p by auto
  have step: "map_set m0 k v = m0 @ [(k, v)]"
    using fresh by (induction m0) auto
  have "set_all (m0 @ [(k, v)]) (map_values m) = (m0 @ [(k, v)]) @ m"
    using Cons.prems(2) p by (intro Cons.IH km) simp
  then show ?case
    using p kv step by (simp add: map_values_def)
qed

lemma keyed_Nil: "keyed []"
  by (simp add: keyed_def)

lemma set_all_merged:
  "set_all [] (mergeById prev docs) = set_all (set_all [] prev) docs"
proof -
  let ?m = "set_all (set_all [] prev) docs"
  have "keyed ?m"
    by (intro keyed_set_all keyed_Nil)
  moreover have "distinct (map fst ([] @ ?m))"
    by (simp add: distinct_set_all)
  ultimately have "set_all [] (map_values ?m) = [] @ ?m"
    by (rule set_all_values)
  then show ?thesis
    by (simp add: mergeById_def)
qed

lemma merge_ids:
  "map doc_id (mergeById prev docs) = map fst (set_all (set_all [] prev) docs)"
  unfolding mergeById_def
  by (intro keyed_values keyed_set_all keyed_Nil)

lemma set_all_distinct_docs:
  "distinct (map doc_id vs) \<Longrightarrow> set_all [] vs = map (\<lambda>v. (doc_id v, v)) vs"
proof -
  assume d: "distinct (map doc_id vs)"
  let ?m = "map (\<lambda>v. (doc_id v, v)) vs"
  have "keyed ?m" by (simp add: keyed_def list_all_iff)
  moreover have "distinct (map fst ([] @ ?m))" using d by (simp add: comp_def)
  ultimately have "set_all [] (map_values ?m) = [] @ ?m" by (rule set_all_values)
  then show ?thesis by (simp add: map_values_def comp_def)
qed

lemma length_mergeById:
  "length (mergeById P I) = card (doc_id ` set P \<union> doc_id ` set I)"
proof -
  have "length (mergeById P I) = length (map doc_id (mergeById P I))"
    by simp
  also have "\<dots> = card (set (map doc_id (mergeById P I)))"
    by (rule distinct_card [symmetric]) (simp add: merge_ids distinct_set_all)
  also have "set (map doc_id (mergeById P I)) = doc_id ` set P \<union> doc_id ` set I"
    by (simp add: merge_ids keys_set_all)
  finally show ?thesis .
qed

lemma distinct_mergeById: "distinct (map doc_id (mergeById P I))"
  by (simp add: merge_ids distinct_set_all)

section \<open>The merge by key\<close>

text \<open>
  C1. For every previous collection and every incoming page, the append-mode merge by
  \<open>_id\<close> yields a collection whose identity keys are pairwise different, and they are
  exactly the keys of the previous collection and of the page: every key appears
  exactly once. This is the collection that Home, SuggestedVideos and Threads store
  after a page has arrived in append mode.
\<close>

theorem mergeById_no_duplicates:
  "distinct (map doc_id (mergeById P I))
   \<and> set (map doc_id (mergeById P I)) = doc_id ` set P \<union> doc_id ` set I
   \<and> distinct (map doc_id (h_items (home_fetchPage_settle h targetPage True (Resolved data))))
   \<and> distinct (map doc_id (sv_items (sv_fetchPage_settle sv (Resolved payload))))
   \<and> distinct (map doc_id (t_rows (threads_fetchPage_settle t targetPage True (Resolved data))))"
proof -
  have "set (map doc_id (mergeById P I)) = doc_id ` set P \<union> doc_id ` set I"
    by (simp add: merge_ids keys_set_all)
  moreover have
    "h_items (home_fetchPage_settle h targetPage True (Resolved data))
       = mergeById (h_items h) (docs_guard data)"
    by (simp add: home_fetchPage_settle_def Let_def)
  moreover have "\<exists>docs. sv_items (sv_fetchPage_settle sv (Resolved payload))
       = mergeById (sv_items sv) docs"
    by (auto simp: sv_fetchPage_settle_def Let_def)
  moreover have
    "t_rows (threads_fetchPage_settle t targetPage True (Resolved data))
       = mergeById (t_rows t) (docs_guard data)"
    by (simp add: threads_fetchPage_settle_def Let_def)
  ultimately show ?thesis
    using distinct_mergeById by metis
qed

text \<open>
  C6. The append-mode merge is idempotent: merging the same page a second time into the
  merged collection gives the merged collection again, element for element.
\<close>

theorem mergeById_idempotent:
  "mergeById (mergeById P I) I = mergeById P I"
proof -
  have "set_all (set_all [] (mergeById P I)) I = set_all (set_all (set_all [] P) I) I"
    by (simp add: set_all_merged)
  also have "\<dots> = set_all (set_all [] P) I"
    by (rule set_all_twice) (simp add: distinct_set_all)
  finally show ?thesis
    by (simp add: mergeById_def)
qed

text \<open>
  C7. A document whose key is already in the previous collection and that arrives in a
  later page replaces the stored one and stays at the position of the first insertion.
  With pages free of repeated keys the merged collection has as many elements as the
  two pages together minus the shared keys: two pages of ten with one collision give
  nineteen, and the colliding position holds the document of the second page.
\<close>

theorem mergeById_collision_in_place:
  assumes dP: "distinct (map doc_id P)" and dI: "distinct (map doc_id I)"
    and i: "i < length P" and x: "x \<in> set I" and k: "doc_id x = doc_id (P ! i)"
  shows "i < length (mergeById P I) \<and> mergeById P I ! i = x
    \<and> length (mergeById P I) + card (doc_id ` set P \<inter> doc_id ` set I) = length P + length I
    \<and> (length P = 10 \<and> length I = 10 \<and> card (doc_id ` set P \<inter> doc_id ` set I) = 1
        \<longrightarrow> length (mergeById P I) = 19)"
proof -
  let ?m = "set_all (set_all [] P) I"
  have mp: "set_all [] P = map (\<lambda>v. (doc_id v, v)) P"
    using dP by (rule set_all_distinct_docs)
  obtain ks where ks: "map fst ?m = map fst (set_all [] P) @ ks"
    using keys_set_all_prefix by blast
  then have keys: "map fst ?m = map doc_id P @ ks"
    by (simp add: mp comp_def)
  have len: "i < length ?m"
    using arg_cong [OF keys, of length] i by simp
  have "fst (?m ! i) = map fst ?m ! i"
    using len by simp
  also have "\<dots> = doc_id (P ! i)"
    using i by (simp add: keys nth_append)
  finally have key_i: "fst (?m ! i) = doc_id x"
    using k by simp
  have dm: "distinct (map fst ?m)"
    by (simp add: distinct_set_all)
  have "(fst (?m ! i), snd (?m ! i)) \<in> set ?m"
    using len by simp
  then have "map_of ?m (fst (?m ! i)) = Some (snd (?m ! i))"
    using dm by (intro map_of_is_SomeI)
  moreover have "map_of ?m (doc_id x) = Some x"
    using bindings_distinct [OF dI x] by (simp add: map_of_set_all map_add_def)
  ultimately have val: "snd (?m ! i) = x"
    using key_i by simp
  have A: "i < length (mergeById P I)"
    using len by (simp add: mergeById_def map_values_def)
  have B: "mergeById P I ! i = x"
    using len val by (simp add: mergeById_def map_values_def)
  have cP: "card (doc_id ` set P) = length P"
    using distinct_card [OF dP] by simp
  have cI: "card (doc_id ` set I) = length I"
    using distinct_card [OF dI] by simp
  have "card (doc_id ` set P) + card (doc_id ` set I)
      = card (doc_id ` set P \<union> doc_id ` set I) + card (doc_id ` set P \<inter> doc_id ` set I)"
    by (rule card_Un_Int) simp_all
  then have C: "length (mergeById P I) + card (doc_id ` set P \<inter> doc_id ` set I)
      = length P + length I"
    by (simp add: length_mergeById cP cI)
  then have D: "length P = 10 \<and> length I = 10 \<and> card (doc_id ` set P \<inter> doc_id ` set I) = 1
        \<longrightarrow> length (mergeById P I) = 19"
    by arith
  show ?thesis using A B C D by blast
qed

lemma scenario_shared_key:
  "doc_id ` set scenario_page_one \<inter> doc_id ` set scenario_page_two = {''v10''}"
  by (simp add: scenario_page_one_def scenario_page_two_def mk_def)

theorem mergeById_collision_in_place_witness:
  "distinct (map doc_id scenario_page_one) \<and> distinct (map doc_id scenario_page_two)
   \<and> 9 < length scenario_page_one \<and> mk ''v10'' 110 \<in> set scenario_page_two
   \<and> doc_id (mk ''v10'' 110) = doc_id (scenario_page_one ! 9)
   \<and> length scenario_page_one = 10 \<and> length scenario_page_two = 10
   \<and> card (doc_id ` set scenario_page_one \<inter> doc_id ` set scenario_page_two) = 1
   \<and> mergeById scenario_page_one scenario_page_two ! 9 = mk ''v10'' 110
   \<and> length (mergeById scenario_page_one scenario_page_two) = 19"
proof -
  have h: "distinct (map doc_id scenario_page_one)" "distinct (map doc_id scenario_page_two)"
    "9 < length scenario_page_one" "mk ''v10'' 110 \<in> set scenario_page_two"
    "doc_id (mk ''v10'' 110) = doc_id (scenario_page_one ! 9)"
    by (simp_all add: scenario_page_one_def scenario_page_two_def mk_def)
  have l: "length scenario_page_one = 10" "length scenario_page_two = 10"
    by (simp_all add: scenario_page_one_def scenario_page_two_def)
  have c: "card (doc_id ` set scenario_page_one \<inter> doc_id ` set scenario_page_two) = 1"
    by (simp add: scenario_shared_key)
  show ?thesis
    using mergeById_collision_in_place [OF h] h l c by simp
qed

section \<open>Optimistic toggles\<close>

lemma lower_like_deleted: "toLowerCase ''Like Deleted'' = ''like deleted''"
  by code_simp

lemma lower_created_and_deleted:
  "toLowerCase ''Like created, dislike deleted'' = ''like created, dislike deleted''"
  by code_simp

text \<open>
  C2, as amended. A like toggle that starts from \<open>liked = false\<close> sets \<open>liked = true\<close> and
  raises the count by one at once (5 becomes 6). If the server then resolves with a
  message that contains "deleted" and does not contain "created" (letter case
  ignored), the final state is \<open>liked = false\<close> with the count recomputed from the value
  before the toggle plus the confirmed direction, floored at 0 (5 again).
\<close>

theorem like_toggle_reconciled:
  assumes "present (w_video_id s)" and "\<not> w_liking s" and "\<not> w_liked s"
    and "str_includes (toLowerCase msg) ''deleted''"
    and "\<not> str_includes (toLowerCase msg) ''created''"
  shows "w_liked (fst (handleToggleLike_begin s))
    \<and> w_likesCount (fst (handleToggleLike_begin s)) = max 0 (w_likesCount s + 1)
    \<and> \<not> w_liked (handleToggleLike s (Resolved (Some msg)))
    \<and> w_likesCount (handleToggleLike s (Resolved (Some msg))) = max 0 (w_likesCount s + 0 - 0)
    \<and> (w_likesCount s = 5 \<longrightarrow>
          w_likesCount (fst (handleToggleLike_begin s)) = 6
          \<and> w_likesCount (handleToggleLike s (Resolved (Some msg))) = 5)"
  using assms
  by (cases "w_video_id s")
     (simp_all add: handleToggleLike_def handleToggleLike_begin_def handleToggleLike_settle_def
       message_or_empty_def present_def Let_def)

theorem like_toggle_reconciled_witness:
  "present (w_video_id ex_watch) \<and> \<not> w_liking ex_watch \<and> \<not> w_liked ex_watch
   \<and> w_likesCount ex_watch = 5
   \<and> str_includes (toLowerCase ''Like Deleted'') ''deleted''
   \<and> \<not> str_includes (toLowerCase ''Like Deleted'') ''created''
   \<and> w_liked (fst (handleToggleLike_begin ex_watch))
   \<and> w_likesCount (fst (handleToggleLike_begin ex_watch)) = 6
   \<and> \<not> w_liked (handleToggleLike ex_watch (Resolved (Some ''Like Deleted'')))
   \<and> w_likesCount (handleToggleLike ex_watch (Resolved (Some ''Like Deleted''))) = 5"
proof -
  have h: "present (w_video_id ex_watch)" "\<not> w_liking ex_watch" "\<not> w_liked ex_watch"
    by (simp_all add: ex_watch_def present_def)
  have m: "str_includes (toLowerCase ''Like Deleted'') ''deleted''"
    "\<not> str_includes (toLowerCase ''Like Deleted'') ''created''"
    by (simp_all add: lower_like_deleted)
  have c: "w_likesCount ex_watch = 5"
    by (simp add: ex_watch_def)
  show ?thesis
    using like_toggle_reconciled [OF h m] h m c by simp
qed

text \<open>
  The claim as first stated fails: a message that contains "deleted" and also "created"
  is read as a confirmed like, so the optimistic state \<open>liked = true\<close>, count 6 stays.
\<close>

theorem like_toggle_created_wins_counterexample:
  "str_includes ''Like created, dislike deleted'' ''deleted''
   \<and> \<not> w_liked ex_watch \<and> w_likesCount ex_watch = 5
   \<and> w_liked (handleToggleLike ex_watch (Resolved (Some ''Like created, dislike deleted'')))
   \<and> w_likesCount
        (handleToggleLike ex_watch (Resolved (Some ''Like created, dislike deleted''))) = 6"
  by (simp add: handleToggleLike_def handleToggleLike_begin_def handleToggleLike_settle_def
       message_or_empty_def present_def Let_def ex_watch_def lower_created_and_deleted)

text \<open>
  C3. When the remote mutation of an optimistic toggle rejects, the toggled state is
  what it was before the toggle: \<open>liked\<close> and \<open>likesCount\<close> after a like toggle,
  \<open>subscribed\<close> after a subscribe toggle, the playlists array after a playlist toggle.
\<close>

theorem optimistic_rollback:
  "w_liked (handleToggleLike s (Rejected err)) = w_liked s
   \<and> w_likesCount (handleToggleLike s (Rejected err)) = w_likesCount s
   \<and> w_subscribed (handleToggleSubscribe s (Rejected err)) = w_subscribed s
   \<and> w_playlists (toggleVideoInPlaylist s pl (Rejected err)) = w_playlists s"
  by (simp add: handleToggleLike_def handleToggleLike_begin_def handleToggleLike_settle_def
       handleToggleSubscribe_def handleToggleSubscribe_begin_def handleToggleSubscribe_settle_def
       toggleVideoInPlaylist_def toggleVideoInPlaylist_begin_def toggleVideoInPlaylist_settle_def
       Let_def)

section \<open>Loading the next page\<close>

lemma home_failed_load_keeps_page_and_items:
  "h_page (home_loadNext s (Rejected err)) = h_page s
   \<and> h_items (home_loadNext s (Rejected err)) = h_items s"
  by (simp add: home_loadNext_def home_loadNext_begin_def home_fetchPage_begin_def
        home_fetchPage_settle_def Let_def)

lemma threads_failed_load_keeps_page_and_rows:
  "t_page (threads_loadNext s (Rejected err)) = t_page s
   \<and> t_rows (threads_loadNext s (Rejected err)) = t_rows s"
  by (simp add: threads_loadNext_def threads_loadNext_begin_def threads_fetchPage_begin_def
        threads_fetchPage_settle_def Let_def)

lemma comments_failed_load_keeps_page_and_items:
  "c_page (comments_fetchPage n s p mode (Rejected err)) = c_page s
   \<and> c_items (comments_fetchPage n s p mode (Rejected err)) = c_items s"
  by (simp add: comments_fetchPage_def comments_fetchPage_begin_def
        comments_fetchPage_settle_def Let_def)

lemma suggested_failed_load_keeps_items:
  "sv_items (sv_onLoadMore videoId limit s (Rejected err)) = sv_items s"
  by (simp add: sv_onLoadMore_def sv_onLoadMore_begin_def sv_fetchPage_begin_def
        sv_fetchPage_settle_def Let_def)

lemma suggested_failed_load_page:
  "\<not> sv_loadingMore s \<Longrightarrow> \<not> sv_loading s \<Longrightarrow> sv_hasMore s
    \<Longrightarrow> sv_page (sv_onLoadMore videoId limit s (Rejected err)) = sv_page s + 1"
  by (simp add: sv_onLoadMore_def sv_onLoadMore_begin_def sv_fetchPage_begin_def
        sv_fetchPage_settle_def Let_def)

text \<open>
  C4. A failed fetch of the next page should leave the page counter and the collection
  as they were. Home, Threads and the comments list do (lemmas above). SuggestedVideos
  keeps the collection, but \<open>onLoadMore\<close> has already stored the next page number when
  the fetch fails: from page 1 of 3, a rejected load leaves the page counter at 2.
\<close>

theorem suggested_failed_load_advances_page:
  "sv_page ex_suggested = 1
   \<and> sv_page (sv_onLoadMore ''vid1'' 12 ex_suggested
        (Rejected (RequestFailed ''Network Error''))) = 2
   \<and> sv_items (sv_onLoadMore ''vid1'' 12 ex_suggested
        (Rejected (RequestFailed ''Network Error''))) = sv_items ex_suggested
   \<and> sv_toasts (sv_onLoadMore ''vid1'' 12 ex_suggested
        (Rejected (RequestFailed ''Network Error''))) = [RequestFailed ''Network Error'']"
  by (simp add: sv_onLoadMore_def sv_onLoadMore_begin_def sv_fetchPage_begin_def
        sv_fetchPage_settle_def sv_hasMore_def Let_def ex_suggested_def)







section \<open>Reset\<close>

text \<open>
  C8, as amended. When the subject of a view changes, the reset clears the collection,
  sets the page to 1 and leaves \<open>hasMore\<close> false: SuggestedVideos sets \<open>totalPages\<close> to 1,
  so that \<open>page < totalPages\<close> is false, and the comments list sets \<open>hasNextPage\<close> to
  false. The first fetch that resolves then sets it from the response.
\<close>

theorem reset_clears_and_hasMore_false:
  "sv_items (sv_reset s) = [] \<and> sv_page (sv_reset s) = 1 \<and> \<not> sv_hasMore (sv_reset s)
   \<and> sv_hasMore (sv_fetchPage_settle (sv_reset s)
        (Resolved (Some \<lparr>pg_docs = Some D, pg_totalPages = Some n\<rparr>))) = (1 < n)
   \<and> (videoId \<noteq> [] \<longrightarrow>
        c_items (fst (comments_reset videoId pageSize c)) = []
        \<and> c_page (fst (comments_reset videoId pageSize c)) = 1
        \<and> \<not> c_hasNextPage (fst (comments_reset videoId pageSize c)))"
  by (simp add: sv_reset_def sv_hasMore_def sv_fetchPage_settle_def comments_reset_def
        comments_fetchPage_begin_def Let_def)

theorem reset_clears_and_hasMore_false_witness:
  "''vid2'' \<noteq> [] \<and> sv_items (sv_reset ex_suggested) = [] \<and> sv_page (sv_reset ex_suggested) = 1
   \<and> \<not> sv_hasMore (sv_reset ex_suggested)
   \<and> c_items (fst (comments_reset ''vid2'' 10 ex_comments)) = []
   \<and> c_page (fst (comments_reset ''vid2'' 10 ex_comments)) = 1
   \<and> \<not> c_hasNextPage (fst (comments_reset ''vid2'' 10 ex_comments))"
  using reset_clears_and_hasMore_false [of ex_suggested "[]" 1 "''vid2''" 10 ex_comments]
  by simp

text \<open>In the comments list too, the first fetch that resolves sets \<open>hasNextPage\<close>.\<close>

lemma comments_first_fetch_sets:
  "videoId \<noteq> [] \<Longrightarrow>
     c_hasNextPage (comments_fetchPage_settle (fst (comments_reset videoId pageSize c)) 1 Replace
        (Resolved (Some \<lparr>cp_docs = Some D, cp_totalDocs = Some n, cp_hasNextPage = Some b\<rparr>)))
       = b"
  by (simp add: comments_reset_def comments_fetchPage_begin_def comments_fetchPage_settle_def
        Let_def)

text \<open>The claim as first stated fails: after the reset \<open>hasMore\<close> is false in both views.\<close>

theorem reset_hasMore_true_counterexample:
  "\<not> (sv_items (sv_reset ex_suggested) = [] \<and> sv_page (sv_reset ex_suggested) = 1
       \<and> sv_hasMore (sv_reset ex_suggested))
   \<and> \<not> (c_items (fst (comments_reset ''vid2'' 10 ex_comments)) = []
       \<and> c_page (fst (comments_reset ''vid2'' 10 ex_comments)) = 1
       \<and> c_hasNextPage (fst (comments_reset ''vid2'' 10 ex_comments)))"
  by (simp add: sv_reset_def sv_hasMore_def comments_reset_def comments_fetchPage_begin_def)

section \<open>Responses without a list\<close>

lemma member_opt: "\<not> nullish x \<Longrightarrow> member x k = Inr (opt_member x k)"
  by (cases x) (simp_all add: member_def opt_member_def nullish_def split: option.splits)

lemma isArray_opt_member: "isArray (opt_member x k) \<Longrightarrow> \<not> nullish x"
  by (auto simp: opt_member_def isArray_def)

lemma docs_in_shapes:
  "js_or (opt_member base ''docs'')
     (js_or (opt_member (opt_member base ''data'') ''docs'')
       (js_or (opt_member (opt_member (opt_member base ''data'') ''data'') ''docs'')
         (js_or (opt_member base ''data'') base))) \<in> set (shapes_from base)"
  by (simp add: js_or_def shapes_from_def)

lemma base_in_bases:
  "coalesce (opt_member payload ''data'') (coalesce (opt_member payload ''message'') payload)
     \<in> {opt_member payload ''data'', opt_member payload ''message'', payload}"
  by (simp add: coalesce_def)

lemma in_found:
  "b \<in> {p1, p2, p3} \<Longrightarrow> d \<in> set (shapes_from b)
    \<Longrightarrow> d \<in> set (concat (map shapes_from [p1, p2, p3]))"
  by auto

text \<open>
  What \<open>extractPlaylists\<close> returns is the empty list or the elements of an array that
  sits at one of the checked shapes; it is never an error.
\<close>

lemma extractPlaylists_cases:
  "extractPlaylists payload = Inr []
   \<or> (\<exists>c \<in> set (checked_shapes payload).
         isArray c \<and> extractPlaylists payload = Inr (elements c))"
proof -
  let ?base = "coalesce (opt_member payload ''data'')
                 (coalesce (opt_member payload ''message'') payload)"
  let ?docs = "js_or (opt_member ?base ''docs'')
     (js_or (opt_member (opt_member ?base ''data'') ''docs'')
       (js_or (opt_member (opt_member (opt_member ?base ''data'') ''data'') ''docs'')
         (js_or (opt_member ?base ''data'') ?base)))"
  have found: "?docs \<in> set (found_shapes payload)"
    unfolding found_shapes_def by (rule in_found [OF base_in_bases docs_in_shapes])
  then have in1: "?docs \<in> set (checked_shapes payload)"
    by (simp add: checked_shapes_def)
  have in2: "opt_member ?docs ''docs'' \<in> set (checked_shapes payload)"
    using found by (simp add: checked_shapes_def)
  show ?thesis
  proof (cases "isArray ?docs")
    case True
    then have "extractPlaylists payload = Inr (elements ?docs)"
      by (simp add: extractPlaylists_def Let_def)
    then show ?thesis using True in1 by blast
  next
    case False
    show ?thesis
    proof (cases "isArray (opt_member ?docs ''docs'')")
      case True
      then have "member ?docs ''docs'' = Inr (opt_member ?docs ''docs'')"
        by (intro member_opt isArray_opt_member)
      then have "extractPlaylists payload = Inr (elements (opt_member ?docs ''docs''))"
        using False True by (simp add: extractPlaylists_def Let_def)
      then show ?thesis using True in2 by blast
    next
      case inner: False
      then have "extractPlaylists payload = Inr []"
        using False by (simp add: extractPlaylists_def Let_def)
      then show ?thesis by simp
    qed
  qed
qed

lemma extractPlaylists_standard:
  "extractPlaylists (JObj [(''data'', JObj [(''docs'', JArr xs)])]) = Inr xs"
  by (simp add: extractPlaylists_def opt_member_def member_def nullish_def coalesce_def
       js_or_def truthy_def isArray_def elements_def Let_def)

lemma ex_malformed_no_array: "no_array_located ex_malformed"
  by (simp add: no_array_located_def checked_shapes_def found_shapes_def shapes_from_def
       ex_malformed_def opt_member_def member_def nullish_def isArray_def)

text \<open>
  C9. For every payload, \<open>extractPlaylists\<close> returns a list and raises nothing. When no
  array sits at any of the checked envelope shapes the list is empty, and the caller
  stores an empty collection and shows no error. The guard of Home does the same:
  when \<open>data?.docs\<close> is not an array, the page is the empty list and no error is shown.
\<close>

theorem no_array_located_gives_empty_page:
  "(\<exists>items. extractPlaylists payload = Inr items)
   \<and> (no_array_located payload \<longrightarrow>
        extractPlaylists payload = Inr []
        \<and> (present (w_userId s) \<longrightarrow>
             w_playlists (fetchPlaylists asPlaylist s (Resolved payload)) = []
             \<and> w_toasts (fetchPlaylists asPlaylist s (Resolved payload)) = w_toasts s))
   \<and> (docs_missing data \<longrightarrow>
        docs_guard data = []
        \<and> h_items (home_fetchPage_settle h targetPage False (Resolved data)) = []
        \<and> h_toasts (home_fetchPage_settle h targetPage appendMode (Resolved data))
            = h_toasts h)"
proof -
  have A: "\<exists>items. extractPlaylists payload = Inr items"
    using extractPlaylists_cases [of payload] by blast
  have B: "extractPlaylists payload = Inr []"
    if "no_array_located payload"
    using extractPlaylists_cases [of payload] that
    by (auto simp: no_array_located_def list_all_iff)
  have C: "w_playlists (fetchPlaylists asPlaylist s (Resolved payload)) = []
           \<and> w_toasts (fetchPlaylists asPlaylist s (Resolved payload)) = w_toasts s"
    if "extractPlaylists payload = Inr []" "present (w_userId s)"
    using that by (simp add: fetchPlaylists_def Let_def)
  have D: "docs_guard data = []" if "docs_missing data"
    using that
    by (cases data) (auto simp: docs_guard_def docs_missing_def split: raw_docs.splits)
  have E: "h_items (home_fetchPage_settle h targetPage False (Resolved data)) = docs_guard data"
    by (simp add: home_fetchPage_settle_def Let_def)
  have F: "h_toasts (home_fetchPage_settle h targetPage appendMode (Resolved data))
      = h_toasts h"
    by (simp add: home_fetchPage_settle_def Let_def)
  show ?thesis using A B C D E F by auto
qed

theorem no_array_located_gives_empty_page_witness:
  "no_array_located ex_malformed
   \<and> present (w_userId ex_watch)
   \<and> docs_missing ex_page_data
   \<and> extractPlaylists ex_malformed = Inr []
   \<and> w_playlists (fetchPlaylists ex_as_playlist ex_watch (Resolved ex_malformed)) = []
   \<and> docs_guard ex_page_data = []"
proof -
  have h1: "no_array_located ex_malformed"
    by (rule ex_malformed_no_array)
  have h2: "present (w_userId ex_watch)"
    by (simp add: ex_watch_def present_def)
  have h3: "docs_missing ex_page_data"
    by (simp add: docs_missing_def ex_page_data_def)
  show ?thesis
    using no_array_located_gives_empty_page
      [of ex_malformed ex_watch ex_as_playlist ex_page_data]
      h1 h2 h3
    by blast
qed

section \<open>The comments list\<close>

text \<open>
  C10. The comments list appends a fetched page by plain concatenation: from the list
  \<open>P\<close> and the fetched documents \<open>D\<close> the new list is \<open>P\<close> followed by \<open>D\<close>. Nothing is
  removed by \<open>_id\<close>: every document occurs as often as in \<open>P\<close> and in \<open>D\<close> together, so a
  comment that two pages return is there twice.
\<close>

theorem comments_append_is_concatenation:
  "c_items (comments_fetchPage pageSize (s\<lparr>c_items := P\<rparr>) p Append
              (Resolved (Some (d\<lparr>cp_docs := Some D\<rparr>)))) = P @ D
   \<and> count_list (c_items (comments_fetchPage pageSize (s\<lparr>c_items := P\<rparr>) p Append
              (Resolved (Some (d\<lparr>cp_docs := Some D\<rparr>))))) x
       = count_list P x + count_list D x"
  by (simp add: comments_fetchPage_def comments_fetchPage_begin_def
        comments_fetchPage_settle_def Let_def)

lemma comments_duplicate_example:
  "c_items (comments_fetchPage 10 ex_comments 3 Append
      (Resolved (Some \<lparr>cp_docs = Some [mk ''c01'' 1], cp_totalDocs = Some 30,
                       cp_hasNextPage = Some False\<rparr>)))
     = [mk ''c01'' 1, mk ''c01'' 1]"
  by (simp add: comments_fetchPage_def comments_fetchPage_begin_def
        comments_fetchPage_settle_def Let_def ex_comments_def)

end
